theory Spec2Isabelle
  imports Main
begin

section \<open>The data of package reflect that the decoder works on\<close>

text \<open>
  The decoder of \<^verbatim>\<open>structmap.go\<close> walks a Go struct through package \<^verbatim>\<open>reflect\<close>.
  The model keeps the part of Go's type and value universe the decoder distinguishes:
  three scalar types, pointers, structs, the mapping type \<^verbatim>\<open>map[string]interface{}\<close>,
  slices, the empty interface and channels. A pointer is modelled by what it points to
  (\<open>None\<close> is the nil pointer), so the store is tree shaped: sibling fields never alias.
  Struct types are finite trees, so a record type that contains itself is not
  representable (the spec leaves that case undefined).
\<close>

datatype Kind = Invalid | Bool | IntK | String | Ptr | Struct | Map | Slice | Interface | Chan

datatype gtype =
    TBool | TInt | TString
  | TPtr gtype
  | TStruct string "StructField list"
  | TMap
  | TSlice gtype
  | TInterface
  | TChan gtype
and StructField =
  StructField (sfName: string) (sfType: gtype) (sfTag: string) (sfAnonymous: bool) (sfExported: bool)

text \<open>
  A value carries its type, as a \<^verbatim>\<open>reflect.Value\<close> does. \<open>VMap\<close> is a value of type
  \<^verbatim>\<open>map[string]interface{}\<close>; an \<^verbatim>\<open>interface{}\<close> is a \<open>gvalue option\<close>, \<open>None\<close>
  being the nil interface. A \<open>Field\<close> is one member of a struct value with its
  declaration (\<^verbatim>\<open>reflect.StructField\<close>) and its current value.
\<close>

datatype gvalue =
    VBool bool | VInt int | VString string
  | VPtr gtype "gvalue option"
  | VStruct string "Field list"
  | VMap "(string \<times> gvalue option) list"
  | VSlice gtype "gvalue list"
  | VInterface "gvalue option"
  | VChan gtype nat
and Field =
  Field (fName: string) (fTag: string) (fAnonymous: bool) (fExported: bool) (fValue: gvalue)

type_synonym SourceMapping = "(string \<times> gvalue option) list"

fun Kind_of :: "gtype \<Rightarrow> Kind" where
  "Kind_of TBool = Bool"
| "Kind_of TInt = IntK"
| "Kind_of TString = String"
| "Kind_of (TPtr t) = Ptr"
| "Kind_of (TStruct n fds) = Struct"
| "Kind_of TMap = Map"
| "Kind_of (TSlice t) = Slice"
| "Kind_of TInterface = Interface"
| "Kind_of (TChan t) = Chan"

text \<open>\<^verbatim>\<open>Type.Elem()\<close> of a pointer type; on a struct or scalar type Go panics (\<open>None\<close>).\<close>

fun Elem :: "gtype \<Rightarrow> gtype option" where
  "Elem (TPtr t) = Some t"
| "Elem (TSlice t) = Some t"
| "Elem (TChan t) = Some t"
| "Elem t = None"

fun typeof :: "gvalue \<Rightarrow> gtype" and declOf :: "Field \<Rightarrow> StructField" where
  "typeof (VBool b) = TBool"
| "typeof (VInt i) = TInt"
| "typeof (VString s) = TString"
| "typeof (VPtr t p) = TPtr t"
| "typeof (VStruct n fs) = TStruct n (map declOf fs)"
| "typeof (VMap kvs) = TMap"
| "typeof (VSlice t xs) = TSlice t"
| "typeof (VInterface x) = TInterface"
| "typeof (VChan t c) = TChan t"
| "declOf (Field n tg an ex v) = StructField n (typeof v) tg an ex"

text \<open>The zero value of a type, which \<^verbatim>\<open>reflect.New\<close> allocates.\<close>

fun zero :: "gtype \<Rightarrow> gvalue" and zeroField :: "StructField \<Rightarrow> Field" where
  "zero TBool = VBool False"
| "zero TInt = VInt 0"
| "zero TString = VString []"
| "zero (TPtr t) = VPtr t None"
| "zero (TStruct n fds) = VStruct n (map zeroField fds)"
| "zero TMap = VMap []"
| "zero (TSlice t) = VSlice t []"
| "zero TInterface = VInterface None"
| "zero (TChan t) = VChan t 0"
| "zeroField (StructField n t tg an ex) = Field n tg an ex (zero t)"

definition New :: "gtype \<Rightarrow> gvalue" where
  "New t = VPtr t (Some (zero t))"

definition Addr :: "gvalue \<Rightarrow> gvalue" where
  "Addr v = VPtr (typeof v) (Some v)"

text \<open>A \<^verbatim>\<open>reflect.Value\<close> is a \<open>gvalue option\<close>: \<open>None\<close> is the invalid (zero) Value.\<close>

fun vKind :: "gvalue option \<Rightarrow> Kind" where
  "vKind None = Invalid"
| "vKind (Some v) = Kind_of (typeof v)"

fun vElem :: "gvalue option \<Rightarrow> gvalue option" where
  "vElem (Some (VPtr t p)) = p"
| "vElem (Some (VInterface x)) = x"
| "vElem v = None"

text \<open>
  Assignability of \<^verbatim>\<open>Value.Set\<close>: identical types, a struct type literal against a
  named struct type with the same members, or the empty interface as destination.
\<close>

fun AssignableTo :: "gtype \<Rightarrow> gtype \<Rightarrow> bool" where
  "AssignableTo V TInterface = True"
| "AssignableTo (TStruct n fds) (TStruct m gds) = (fds = gds \<and> (n = m \<or> n = [] \<or> m = []))"
| "AssignableTo V T = (V = T)"

fun assignTo :: "gvalue \<Rightarrow> gtype \<Rightarrow> gvalue" where
  "assignTo (VInterface x) TInterface = VInterface x"
| "assignTo v TInterface = VInterface (Some v)"
| "assignTo (VStruct n fs) (TStruct m gds) = VStruct m fs"
| "assignTo v T = v"

datatype panic =
    PanicSet gtype gtype
  | PanicConvert gtype gtype
  | PanicMutation string

text \<open>\<open>reflect_Set T v\<close>: store \<open>v\<close> in a slot of type \<open>T\<close>; \<open>Inl\<close> is the panic of \<^verbatim>\<open>reflect.Set\<close>.\<close>

definition reflect_Set :: "gtype \<Rightarrow> gvalue \<Rightarrow> panic + gvalue" where
  "reflect_Set T v = (if AssignableTo (typeof v) T then Inr (assignTo v T) else Inl (PanicSet (typeof v) T))"

text \<open>
  \<^verbatim>\<open>Type.ConvertibleTo\<close> and \<^verbatim>\<open>Value.Convert\<close> belong to Go's standard library. They
  are parameters of the model; \<open>Convert\<close> may panic (\<open>None\<close>) even where
  \<open>ConvertibleTo\<close> holds, as the library documents.
\<close>

record reflect =
  ConvertibleTo :: "gtype \<Rightarrow> gtype \<Rightarrow> bool"
  Convert :: "gvalue \<Rightarrow> gtype \<Rightarrow> gvalue option"

section \<open>Package internal: indirection helpers\<close>

fun internal_Type :: "gtype \<Rightarrow> gtype" where
  "internal_Type (TPtr t) = internal_Type t"
| "internal_Type t = t"

fun internal_Value :: "gvalue option \<Rightarrow> bool \<Rightarrow> gvalue option" where
  "internal_Value (Some (VPtr t p)) fromInterface = internal_Value p fromInterface"
| "internal_Value (Some (VInterface x)) fromInterface =
     (if fromInterface then internal_Value x fromInterface else Some (VInterface x))"
| "internal_Value v fromInterface = v"

lemma typeof_zero: "typeof (zero t) = t" and declOf_zeroField: "declOf (zeroField fd) = fd"
  by (induction t and fd rule: zero_zeroField.induct) (auto simp: map_idI)

text \<open>
  \<open>SetValue target v\<close> returns the new content of the slot \<open>target\<close>, or the panic of
  \<^verbatim>\<open>reflect.Set\<close>. Every pointer layer is allocated afresh, whatever it held before.
\<close>

function SetValue :: "gvalue \<Rightarrow> gvalue \<Rightarrow> panic + gvalue" where
  "SetValue target v =
     (case target of
        VPtr t p \<Rightarrow>
          (case SetValue (zero t) v of
             Inl e \<Rightarrow> Inl e
           | Inr x \<Rightarrow> Inr (VPtr t (Some x)))
      | _ \<Rightarrow> reflect_Set (typeof target) v)"
  by pat_completeness auto
termination
  by (relation "measure (\<lambda>(target, v). size (typeof target))") (auto simp: typeof_zero)

declare SetValue.simps [simp del]

section \<open>The record model\<close>

datatype error =
    ErrNotStruct
  | ErrMutation string
  | ErrEmbedded string
  | ErrNotAssignable string gtype gtype
  | ErrRecovered panic

text \<open>
  Modelled from the spec: \<^verbatim>\<open>NewStruct\<close>, \<^verbatim>\<open>Struct.Fields\<close>, \<^verbatim>\<open>Field.IsEmbedded\<close> and
  \<^verbatim>\<open>Field.IsZero\<close> are called by \<^verbatim>\<open>Decode\<close> but their file is not part of the sources.
  \<^verbatim>\<open>Field.IsZero\<close> is only asked of pointers, where it means nil: the model matches on
  \<open>VPtr t None\<close>.
  The spec (4.1, 6) says: the target must be a write handle to an aggregate value,
  anything else fails immediately; the fields are the declared members in declaration
  order, unexported members excluded; an anonymous member is flagged as embedded.
  The handle is followed through its pointer layers with the package's own
  \<open>internal_Value\<close>.
\<close>

definition NewStruct :: "gvalue \<Rightarrow> error + Field list" where
  "NewStruct to =
     (case to of
        VPtr t p \<Rightarrow>
          (case internal_Value (Some to) False of
             Some (VStruct n fs) \<Rightarrow> Inr fs
           | _ \<Rightarrow> Inl ErrNotStruct)
      | _ \<Rightarrow> Inl ErrNotStruct)"

definition Fields :: "Field list \<Rightarrow> Field list" where
  "Fields s = filter fExported s"

definition IsEmbedded :: "Field \<Rightarrow> bool" where
  "IsEmbedded field = fAnonymous field"

definition fType :: "Field \<Rightarrow> gtype" where
  "fType field = typeof (fValue field)"

text \<open>
  Go writes a field through its \<^verbatim>\<open>reflect.Value\<close>, in place. In the model the loop
  returns the fields it was given with their new values, and \<open>store\<close> puts them back
  behind the handle, each at the place of the exported member it came from.
\<close>

definition withValue :: "Field \<Rightarrow> gvalue \<Rightarrow> Field" where
  "withValue field v = Field (fName field) (fTag field) (fAnonymous field) (fExported field) v"

fun setFields :: "Field list \<Rightarrow> Field list \<Rightarrow> Field list" where
  "setFields [] new = []"
| "setFields (a # s) new =
     (if fExported a then
        (case new of [] \<Rightarrow> a # s | b # new' \<Rightarrow> b # setFields s new')
      else a # setFields s new)"

fun store :: "gvalue \<Rightarrow> Field list \<Rightarrow> gvalue" where
  "store (VPtr t (Some v)) new = VPtr t (Some (store v new))"
| "store (VStruct n s) new = VStruct n (setFields s new)"
| "store v new = v"

section \<open>The decoder\<close>

record FieldPart =
  Name :: string
  Value :: "gvalue option"
  Type :: gtype
  Tag :: string
  Skip :: bool

text \<open>
  A mutation receives the descriptor and either returns it changed, returns an error,
  or panics: it is caller code.
\<close>

datatype mutation_result = Mutated FieldPart | Failed error | Panicked panic

type_synonym MutationFunc = "FieldPart \<Rightarrow> mutation_result"

record Decoder =
  mutations :: "MutationFunc list"

definition NewDecoder :: Decoder where
  "NewDecoder = \<lparr>mutations = []\<rparr>"

definition AddMutation :: "Decoder \<Rightarrow> MutationFunc \<Rightarrow> Decoder" where
  "AddMutation decoder mutation = decoder\<lparr>mutations := mutations decoder @ [mutation]\<rparr>"

text \<open>
  How one pass of the loop body, or the loop, ends: it goes on (\<open>Next\<close>; for the whole
  loop this is \<^verbatim>\<open>return nil\<close>), it returns an error, or it panics.
\<close>

datatype flow = Next | Return error | Panic panic

text \<open>Lines 59 to 74: the mutations in order, \<open>i\<close> the loop index.\<close>

fun runMutations ::
  "MutationFunc list \<Rightarrow> nat \<Rightarrow> SourceMapping \<Rightarrow> Field \<Rightarrow> FieldPart \<Rightarrow> flow + FieldPart" where
  "runMutations [] i from field fp = Inr fp"
| "runMutations (mutation # ms) i from field fp =
     (case mutation fp of
        Failed err \<Rightarrow> Inl (Return err)
      | Panicked p \<Rightarrow> Inl (Panic p)
      | Mutated fp1 \<Rightarrow>
          runMutations ms (Suc i) from field
            (if i = 0 then
               (let fp2 = (if Name fp1 = [] then fp1\<lparr>Name := fName field\<rparr> else fp1)
                in (case map_of from (Name fp2) of
                      Some v \<Rightarrow> fp2\<lparr>Value := v\<rparr>
                    | None \<Rightarrow> fp2))
             else fp1))"

text \<open>Lines 53 to 56: the fresh descriptor of a field.\<close>

definition newFieldPart :: "Field \<Rightarrow> FieldPart" where
  "newFieldPart field =
     \<lparr>Name = [], Value = None, Type = fType field, Tag = fTag field, Skip = False\<rparr>"

text \<open>Lines 103 to 109: the descriptor's value, through one pointer if it is one.\<close>

definition resolved :: "FieldPart \<Rightarrow> gvalue option" where
  "resolved fp = (if vKind (Value fp) = Ptr then vElem (Value fp) else Value fp)"

text \<open>
  Lines 83 to 85 and 117 to 120: a nil pointer field is set to a new zero pointee.
  Lines 117 to 123: the slot to fill is the pointee of a pointer field, else the field.
  Lines 133 to 137: the field once the slot holds \<open>x\<close>.
\<close>

fun allocated :: "gvalue \<Rightarrow> gvalue" where
  "allocated (VPtr t None) = New t"
| "allocated v = v"

fun slotType :: "gvalue \<Rightarrow> gtype" where
  "slotType (VPtr t p) = t"
| "slotType v = typeof v"

fun setSlot :: "gvalue \<Rightarrow> gvalue \<Rightarrow> gvalue" where
  "setSlot (VPtr t p) x = VPtr t (Some x)"
| "setSlot v x = x"

text \<open>
  Lines 103 to 137: the branch of a field that is not a struct and not a pointer to a
  struct. The result is the field as the branch leaves it, and how the branch ends.
\<close>

definition assignValue :: "reflect \<Rightarrow> Field \<Rightarrow> FieldPart \<Rightarrow> Field \<times> flow" where
  "assignValue rt field fp =
     (case resolved fp of
        None \<Rightarrow> (field, Next)
      | Some v \<Rightarrow>
          (let field1 = withValue field (allocated (fValue field));
               T = slotType (fValue field);
               converted = (if ConvertibleTo rt (typeof v) T then Convert rt v T else Some v)
           in case converted of
                None \<Rightarrow> (field1, Panic (PanicConvert (typeof v) T))
              | Some v' \<Rightarrow>
                  if Kind_of (typeof v') \<noteq> Kind_of T
                  then (field1, Return (ErrNotAssignable (fName field) (typeof v') T))
                  else (case reflect_Set T v' of
                          Inl p \<Rightarrow> (field1, Panic p)
                        | Inr x \<Rightarrow> (withValue field (setSlot (fValue field) x), Next))))"

text \<open>The deferred function of lines 39 to 45, run when the body has ended.\<close>

fun deferred :: "flow \<Rightarrow> error option" where
  "deferred Next = None"
| "deferred (Return err) = Some err"
| "deferred (Panic p) = Some (ErrRecovered p)"

text \<open>Line 94: the type assertion to \<^verbatim>\<open>map[string]interface{}\<close>.\<close>

fun asMapping :: "gvalue option \<Rightarrow> SourceMapping option" where
  "asMapping (Some (VMap kvs)) = Some kvs"
| "asMapping v = None"

text \<open>
  Lines 90 to 97: the mapping the nested call reads. An embedded field shares the
  caller's mapping; any other needs a mapping as its value (\<open>None\<close>: it has none).
\<close>

definition structFrom :: "SourceMapping \<Rightarrow> Field \<Rightarrow> FieldPart \<Rightarrow> SourceMapping option" where
  "structFrom from field fp = (if IsEmbedded field then Some from else asMapping (Value fp))"

text \<open>
  Lines 81 to 88: the handle passed to the nested call, the new pointer of a nil
  pointer field, else the address of the field. \<open>heldBy v to'\<close> is what the field holds
  once the nested call has written through the handle and left it as \<open>to'\<close>.
\<close>

fun handleOf :: "gvalue \<Rightarrow> gvalue" where
  "handleOf (VPtr t None) = New t"
| "handleOf v = Addr v"

fun pointee :: "gvalue \<Rightarrow> gvalue \<Rightarrow> gvalue" where
  "pointee (VPtr t (Some v')) v = v'"
| "pointee to' v = v"

fun heldBy :: "gvalue \<Rightarrow> gvalue \<Rightarrow> gvalue" where
  "heldBy (VPtr t None) to' = to'"
| "heldBy v to' = pointee to' v"

text \<open>Line 80: a struct or a pointer to a struct.\<close>

definition isStructField :: "Field \<Rightarrow> bool" where
  "isStructField field =
     (Kind_of (fType field) = Struct \<or>
      (Kind_of (fType field) = Ptr \<and> map_option Kind_of (Elem (fType field)) = Some Struct))"

text \<open>The nesting depth the recursion of \<open>Decode\<close> goes down on.\<close>

fun tsize :: "gtype \<Rightarrow> nat" and sfsize :: "StructField \<Rightarrow> nat" where
  "tsize (TPtr t) = 2 + tsize t"
| "tsize (TStruct n fds) = 2 + sum_list (map sfsize fds)"
| "tsize t = 0"
| "sfsize (StructField n t tg an ex) = 1 + tsize t"

fun vsize :: "gvalue \<Rightarrow> nat" and fsize :: "Field \<Rightarrow> nat" where
  "vsize (VPtr t None) = 2 + tsize t"
| "vsize (VPtr t (Some v)) = 1 + vsize v"
| "vsize (VStruct n fs) = 2 + sum_list (map fsize fs)"
| "vsize v = 0"
| "fsize (Field n tg an ex v) = 1 + vsize v"

lemma vsize_zero: "vsize (zero t) \<le> tsize t" and fsize_zeroField: "fsize (zeroField fd) \<le> sfsize fd"
  by (induction t and fd rule: zero_zeroField.induct) (auto simp: comp_def intro!: sum_list_mono)

lemma fsize_eq: "fsize field = 1 + vsize (fValue field)"
  by (cases field) simp

lemma vsize_handleOf: "vsize (handleOf v) \<le> 1 + vsize v"
  using vsize_zero by (induction v rule: handleOf.induct) (auto simp: New_def Addr_def le_SucI)

lemma internal_Value_vsize:
  "internal_Value x b = Some (VStruct n fs) \<Longrightarrow> \<not> b \<Longrightarrow> x = Some v \<Longrightarrow>
   2 + sum_list (map fsize fs) \<le> vsize v"
proof (induction x b arbitrary: v rule: internal_Value.induct)
  case (1 t p fromInterface)
  from "1.prems" obtain a where a: "p = Some a"
    by (cases p) auto
  with "1.prems" have "2 + sum_list (map fsize fs) \<le> vsize a"
    by (intro "1.IH") auto
  with a "1.prems" show ?case by auto
qed auto

lemma NewStruct_vsize: "NewStruct to = Inr s \<Longrightarrow> 2 + sum_list (map fsize s) \<le> vsize to"
  using internal_Value_vsize [of "Some to" False _ s to]
  by (auto simp: NewStruct_def split: gvalue.splits option.splits simp del: internal_Value.simps)

lemma sum_list_filter_le: "sum_list (map f (filter P xs)) \<le> sum_list (map (f::'a \<Rightarrow> nat) xs)"
  by (induction xs) auto

lemma Fields_vsize: "NewStruct to = Inr s \<Longrightarrow> sum_list (map fsize (Fields s)) + 2 \<le> vsize to"
  using NewStruct_vsize [of to s] sum_list_filter_le [of fsize fExported s]
  by (simp add: Fields_def)

text \<open>
  \<open>Decode\<close> (lines 38 to 142), its loop over the fields (line 52) and the loop body
  (lines 53 to 138). The results carry the target as the call leaves it, also when
  the call ends with an error: Go has written it in place by then.
\<close>

function Decode :: "reflect \<Rightarrow> Decoder \<Rightarrow> SourceMapping \<Rightarrow> gvalue \<Rightarrow> gvalue \<times> error option"
  and decodeFields :: "reflect \<Rightarrow> Decoder \<Rightarrow> SourceMapping \<Rightarrow> Field list \<Rightarrow> Field list \<times> flow"
  and decodeField :: "reflect \<Rightarrow> Decoder \<Rightarrow> SourceMapping \<Rightarrow> Field \<Rightarrow> Field \<times> flow"
where
  "Decode rt decoder from to =
     (case NewStruct to of
        Inl err \<Rightarrow> (to, Some err)
      | Inr s \<Rightarrow>
          (case decodeFields rt decoder from (Fields s) of
             (fs', fl) \<Rightarrow> (store to fs', deferred fl)))"
| "decodeFields rt decoder from [] = ([], Next)"
| "decodeFields rt decoder from (field # fs) =
     (case decodeField rt decoder from field of
        (field', Next) \<Rightarrow>
          (case decodeFields rt decoder from fs of
             (fs', fl) \<Rightarrow> (field' # fs', fl))
      | (field', fl) \<Rightarrow> (field' # fs, fl))"
| "decodeField rt decoder from field =
     (case runMutations (mutations decoder) 0 from field (newFieldPart field) of
        Inl fl \<Rightarrow> (field, fl)
      | Inr fp \<Rightarrow>
          if Skip fp then (field, Next)
          else if isStructField field then
            (case structFrom from field fp of
               None \<Rightarrow>
                 (withValue field (allocated (fValue field)), Return (ErrEmbedded (Name fp)))
             | Some sub \<Rightarrow>
                 (case Decode rt decoder sub (handleOf (fValue field)) of
                    (to', None) \<Rightarrow> (withValue field (heldBy (fValue field) to'), Next)
                  | (to', Some err) \<Rightarrow>
                      (withValue field (heldBy (fValue field) to'), Return err)))
          else assignValue rt field fp)"
  by pat_completeness auto
termination
proof (relation "measure (\<lambda>x. case x of
         Inl (rt, decoder, from, to) \<Rightarrow> 3 * vsize to
       | Inr (Inl (rt, decoder, from, fs)) \<Rightarrow> 3 * sum_list (map fsize fs) + 2
       | Inr (Inr (rt, decoder, from, field)) \<Rightarrow> 3 * fsize field + 1)", goal_cases)
  case 1
  show ?case by simp
next
  case (2 rt decoder "from" to s)
  then show ?case using Fields_vsize [of to s] by simp
next
  case (3 rt decoder "from" field fs)
  show ?case by simp
next
  case (4 rt decoder "from" field fs)
  show ?case by (simp add: fsize_eq)
next
  case (5 rt decoder "from" field)
  show ?case using vsize_handleOf [of "fValue field"] by (simp add: fsize_eq)
qed

declare Decode.simps [simp del] decodeFields.simps [simp del] decodeField.simps [simp del]

text \<open>
  Lines 76 to 138: what the loop body does with a field once the pipeline has left
  the descriptor \<open>fp\<close>. It is the second half of \<open>decodeField\<close>, named.
\<close>

definition dispatch :: "reflect \<Rightarrow> Decoder \<Rightarrow> SourceMapping \<Rightarrow> Field \<Rightarrow> FieldPart \<Rightarrow> Field \<times> flow" where
  "dispatch rt decoder from field fp =
     (if Skip fp then (field, Next)
      else if isStructField field then
        (case structFrom from field fp of
           None \<Rightarrow>
             (withValue field (allocated (fValue field)), Return (ErrEmbedded (Name fp)))
         | Some sub \<Rightarrow>
             (case Decode rt decoder sub (handleOf (fValue field)) of
                (to', None) \<Rightarrow> (withValue field (heldBy (fValue field) to'), Next)
              | (to', Some err) \<Rightarrow>
                  (withValue field (heldBy (fValue field) to'), Return err)))
      else assignValue rt field fp)"

text \<open>The exported members behind a handle, as \<open>Decode\<close> lists them.\<close>

definition targetFields :: "gvalue \<Rightarrow> Field list" where
  "targetFields to = (case NewStruct to of Inr s \<Rightarrow> Fields s | Inl err \<Rightarrow> [])"

section \<open>Concrete decoders and targets\<close>

text \<open>
  A runtime whose conversions are the assignable ones: a value converts to its own
  type and to \<^verbatim>\<open>interface{}\<close>. Go converts more (between numeric types, an integer to a
  string, between struct types that differ in name or tags); the scenarios below use
  no such pair of types. \<open>Noop\<close> is a naming step that leaves the descriptor as it is,
  so that the engine falls back on the declared identifier.
\<close>

definition assignable_conversions :: reflect where
  "assignable_conversions =
     \<lparr>ConvertibleTo = AssignableTo, Convert = (\<lambda>v T. Some (assignTo v T))\<rparr>"

definition Noop :: MutationFunc where
  "Noop fp = Mutated fp"

definition noopDecoder :: Decoder where
  "noopDecoder = AddMutation NewDecoder Noop"

definition presetField :: Field where
  "presetField = Field ''Name'' [] False True (VString ''preset'')"

definition presetTarget :: gvalue where
  "presetTarget = Addr (VStruct ''Target'' [presetField])"

text \<open>
  The spec's account of the pipeline (3, 4.4), to compare \<open>runMutations\<close> with: the
  engine resolves the name and looks the value up once, after the first step; the
  later steps never see the mapping.
\<close>

definition resolveName :: "Field \<Rightarrow> FieldPart \<Rightarrow> FieldPart" where
  "resolveName field fp = (if Name fp = [] then fp\<lparr>Name := fName field\<rparr> else fp)"

definition lookupValue :: "SourceMapping \<Rightarrow> FieldPart \<Rightarrow> FieldPart" where
  "lookupValue from fp = (case map_of from (Name fp) of Some v \<Rightarrow> fp\<lparr>Value := v\<rparr> | None \<Rightarrow> fp)"

fun laterSteps :: "MutationFunc list \<Rightarrow> FieldPart \<Rightarrow> flow + FieldPart" where
  "laterSteps [] fp = Inr fp"
| "laterSteps (mutation # ms) fp =
     (case mutation fp of
        Failed err \<Rightarrow> Inl (Return err)
      | Panicked p \<Rightarrow> Inl (Panic p)
      | Mutated fp1 \<Rightarrow> laterSteps ms fp1)"

text \<open>\<open>n\<close> layers of pointer around a type, and the value behind \<open>n\<close> layers.\<close>

fun ptrN :: "nat \<Rightarrow> gtype \<Rightarrow> gtype" where
  "ptrN 0 T = T"
| "ptrN (Suc n) T = TPtr (ptrN n T)"

fun derefN :: "nat \<Rightarrow> gvalue \<Rightarrow> gvalue option" where
  "derefN 0 v = Some v"
| "derefN (Suc n) v = (case v of VPtr t (Some x) \<Rightarrow> derefN n x | _ \<Rightarrow> None)"

definition tripleField :: Field where
  "tripleField = Field ''A'' [] False True (VPtr (TPtr (TPtr TString)) None)"

definition tripleTarget :: gvalue where
  "tripleTarget = Addr (VStruct ''Target'' [tripleField])"

text \<open>The targets of the spec's scenarios P3 and P4, and their mappings.\<close>

definition SubRecord :: gtype where
  "SubRecord = TStruct ''SubRecord'' [StructField ''Address'' TString [] False True]"

definition myAddressField :: Field where
  "myAddressField = Field ''MyAddress'' [] False True (zero SubRecord)"

definition myAddressTarget :: gvalue where
  "myAddressTarget = Addr (VStruct ''Target'' [myAddressField])"

definition notAMap :: SourceMapping where
  "notAMap = [(''MyAddress'', Some (VString ''not-a-map''))]"

definition embeddedField :: Field where
  "embeddedField = Field ''SubRecord'' [] True True (zero SubRecord)"

definition embeddedTarget :: gvalue where
  "embeddedTarget = Addr (VStruct ''Target'' [embeddedField])"

definition streetA :: SourceMapping where
  "streetA = [(''Address'', Some (VString ''Street A''))]"

definition myAddressPtrField :: Field where
  "myAddressPtrField = Field ''MyAddress'' [] False True (VPtr SubRecord None)"

definition myAddressPtrTarget :: gvalue where
  "myAddressPtrTarget = Addr (VStruct ''Target'' [myAddressPtrField])"






definition namesInts :: SourceMapping where
  "namesInts = [(''Names'', Some (VSlice TInt [VInt 1, VInt 2]))]"


text \<open>A target with a named struct member whose \<^verbatim>\<open>[]string\<close> field is offered a \<^verbatim>\<open>[]int\<close>.\<close>

definition Inner :: gtype where
  "Inner = TStruct ''Inner'' [StructField ''Names'' (TSlice TString) [] False True]"

definition innerField :: Field where
  "innerField = Field ''Inner'' [] False True (zero Inner)"

definition innerTarget :: gvalue where
  "innerTarget = Addr (VStruct ''Target'' [innerField])"

definition innerInts :: SourceMapping where
  "innerInts = [(''Inner'', Some (VMap namesInts))]"




definition twoFieldTarget :: gvalue where
  "twoFieldTarget = Addr (VStruct ''Target'' [presetField, myAddressField])"

definition bothKeys :: SourceMapping where
  "bothKeys = [(''Name'', Some (VString ''x'')), (''MyAddress'', Some (VMap streetA))]"

section \<open>Facts about the loop and the write-back\<close>

lemma withValue_sel [simp]:
  "fName (withValue field v) = fName field"
  "fTag (withValue field v) = fTag field"
  "fAnonymous (withValue field v) = fAnonymous field"
  "fExported (withValue field v) = fExported field"
  "fValue (withValue field v) = v"
  by (simp_all add: withValue_def)

lemma withValue_same [simp]: "withValue field (fValue field) = field"
  by (cases field) (simp add: withValue_def)

lemma withValue_twice [simp]: "withValue (withValue field v) w = withValue field w"
  by (simp add: withValue_def)

lemma assignValue_withValue: "\<exists>v. fst (assignValue rt field fp) = withValue field v"
proof (cases "resolved fp")
  case None
  then have "fst (assignValue rt field fp) = withValue field (fValue field)"
    by (simp add: assignValue_def)
  then show ?thesis by blast
next
  case (Some v)
  then show ?thesis
    by (auto simp: assignValue_def Let_def split: option.splits sum.splits)
qed

lemma decodeField_withValue: "\<exists>v. fst (decodeField rt d from field) = withValue field v"
proof (cases "runMutations (mutations d) 0 from field (newFieldPart field)")
  case (Inl fl)
  then have "fst (decodeField rt d from field) = withValue field (fValue field)"
    by (simp add: decodeField.simps)
  then show ?thesis by blast
next
  case (Inr fp)
  show ?thesis
  proof (cases "Skip fp \<or> \<not> isStructField field")
    case True
    then show ?thesis using Inr assignValue_withValue [of rt field fp]
      by (auto simp: decodeField.simps intro: exI [of _ "fValue field"])
  next
    case False
    then show ?thesis using Inr
      by (auto simp: decodeField.simps split: option.splits prod.splits)
  qed
qed

lemma decodeField_exported: "decodeField rt d from field = (field', fl) \<Longrightarrow> fExported field' = fExported field"
  using decodeField_withValue [of rt d "from" field] by auto

lemma decodeFields_exported:
  "map fExported (fst (decodeFields rt d from fs)) = map fExported fs"
proof (induction fs)
  case Nil
  show ?case by (simp add: decodeFields.simps)
next
  case (Cons a fs)
  obtain a' fl where a: "decodeField rt d from a = (a', fl)"
    by (cases "decodeField rt d from a")
  obtain fs' fl' where fs: "decodeFields rt d from fs = (fs', fl')"
    by (cases "decodeFields rt d from fs")
  from a have "fExported a' = fExported a"
    by (rule decodeField_exported)
  with a fs Cons show ?case
    by (cases fl) (simp_all add: decodeFields.simps)
qed

lemma decodeFields_length: "length (fst (decodeFields rt d from fs)) = length fs"
  using decodeFields_exported [of rt d "from" fs, THEN arg_cong, of length] by simp

lemma setFields_Fields:
  "map fExported new = map fExported (Fields s) \<Longrightarrow> Fields (setFields s new) = new"
proof (induction s arbitrary: new)
  case Nil
  then show ?case by (simp add: Fields_def)
next
  case (Cons a s)
  then show ?case
    by (cases new) (auto simp: Fields_def)
qed

lemma internal_Value_store:
  "internal_Value (Some to) False = Some (VStruct n s) \<Longrightarrow>
   internal_Value (Some (store to new)) False = Some (VStruct n (setFields s new))"
proof (induction to new rule: store.induct)
qed auto

lemma NewStruct_store:
  "NewStruct to = Inr s \<Longrightarrow> NewStruct (store to new) = Inr (setFields s new)"
proof (cases to)
  case (VPtr t p)
  assume ns: "NewStruct to = Inr s"
  with VPtr obtain n where iv: "internal_Value (Some to) False = Some (VStruct n s)"
    by (auto simp: NewStruct_def split: option.splits gvalue.splits simp del: internal_Value.simps)
  from VPtr obtain v where p: "p = Some v"
    using iv by (cases p) auto
  from internal_Value_store [OF iv, of new] VPtr p show ?thesis
    by (simp add: NewStruct_def)
qed (auto simp: NewStruct_def)

lemma Decode_unfold:
  "NewStruct to = Inr s \<Longrightarrow>
   Decode rt d from to =
     (store to (fst (decodeFields rt d from (Fields s))),
      deferred (snd (decodeFields rt d from (Fields s))))"
  by (simp add: Decode.simps split: prod.splits)

lemma targetFields_Decode:
  assumes "NewStruct to = Inr s"
  shows "targetFields (fst (Decode rt d from to)) = fst (decodeFields rt d from (Fields s))"
proof -
  have "NewStruct (fst (Decode rt d from to)) =
        Inr (setFields s (fst (decodeFields rt d from (Fields s))))"
    using assms by (simp add: Decode_unfold NewStruct_store)
  then show ?thesis
    by (simp add: targetFields_def setFields_Fields decodeFields_exported)
qed

lemma decodeFields_append:
  "decodeFields rt d from (xs @ ys) =
     (case decodeFields rt d from xs of
        (xs', Next) \<Rightarrow> (case decodeFields rt d from ys of (ys', fl) \<Rightarrow> (xs' @ ys', fl))
      | (xs', fl) \<Rightarrow> (xs' @ ys, fl))"
proof (induction xs)
  case Nil
  show ?case by (simp add: decodeFields.simps split: prod.splits)
next
  case (Cons a xs)
  obtain a' fl where a: "decodeField rt d from a = (a', fl)"
    by (cases "decodeField rt d from a")
  show ?case
  proof (cases fl)
    case Next
    with a Cons show ?thesis
      by (simp add: decodeFields.simps split: prod.splits flow.splits)
  qed (use a in \<open>simp_all add: decodeFields.simps\<close>)
qed


lemma decodeFields_nth:
  "i < length fs \<Longrightarrow>
   fst (decodeFields rt d from fs) ! i = fs ! i \<or>
   fst (decodeFields rt d from fs) ! i = fst (decodeField rt d from (fs ! i))"
proof (induction fs arbitrary: i)
  case Nil
  then show ?case by simp
next
  case (Cons a fs)
  obtain a' fl where a: "decodeField rt d from a = (a', fl)"
    by (cases "decodeField rt d from a")
  obtain fs' fl' where fs: "decodeFields rt d from fs = (fs', fl')"
    by (cases "decodeFields rt d from fs")
  show ?case
  proof (cases i)
    case 0
    with a fs show ?thesis
      by (cases fl) (simp_all add: decodeFields.simps)
  next
    case (Suc j)
    with Cons.prems have "j < length fs" by simp
    from Cons.IH [OF this] a fs Suc show ?thesis
      by (cases fl) (simp_all add: decodeFields.simps)
  qed
qed

lemma resolved_None:
  "resolved fp = None \<longleftrightarrow> Value fp = None \<or> (\<exists>t. Value fp = Some (VPtr t None))"
proof (cases "Value fp")
  case None
  then show ?thesis by (simp add: resolved_def)
next
  case (Some v)
  then show ?thesis by (cases v) (auto simp: resolved_def)
qed

lemma decodeField_scalar:
  "runMutations (mutations d) 0 from field (newFieldPart field) = Inr fp \<Longrightarrow>
   \<not> isStructField field \<Longrightarrow>
   decodeField rt d from field = (if Skip fp then (field, Next) else assignValue rt field fp)"
  by (simp add: decodeField.simps)

lemma runMutations_later: "0 < i \<Longrightarrow> runMutations ms i from field fp = laterSteps ms fp"
  by (induction ms arbitrary: i fp) (auto split: mutation_result.splits)

lemma typeof_assignTo: "AssignableTo (typeof v) T \<Longrightarrow> typeof (assignTo v T) = T"
  by (induction v T rule: assignTo.induct) auto

lemma SetValue_depth:
  "typeof target = ptrN n T \<Longrightarrow> Kind_of T \<noteq> Ptr \<Longrightarrow> AssignableTo (typeof v) T \<Longrightarrow>
   \<exists>r. SetValue target v = Inr r \<and> derefN n r = Some (assignTo v T) \<and> typeof r = ptrN n T"
proof (induction n arbitrary: target)
  case 0
  then show ?case
    by (cases target; subst SetValue.simps) (auto simp: reflect_Set_def typeof_assignTo)
next
  case (Suc n)
  then obtain p where t: "target = VPtr (ptrN n T) p"
    by (cases target) auto
  from Suc.IH [of "zero (ptrN n T)"] Suc.prems
  obtain r where r: "SetValue (zero (ptrN n T)) v = Inr r" "derefN n r = Some (assignTo v T)" "typeof r = ptrN n T"
    by (auto simp: typeof_zero)
  then show ?case using t
    by (simp add: SetValue.simps [of "VPtr (ptrN n T) p"])
qed

lemma decodeField_dispatch:
  "decodeField rt d from field =
     (case runMutations (mutations d) 0 from field (newFieldPart field) of
        Inl fl \<Rightarrow> (field, fl)
      | Inr fp \<Rightarrow> dispatch rt d from field fp)"
  by (simp add: decodeField.simps dispatch_def split: sum.splits)

lemma runMutations_first:
  "runMutations (m # ms) 0 from field fp0 =
     (case m fp0 of
        Failed err \<Rightarrow> Inl (Return err)
      | Panicked p \<Rightarrow> Inl (Panic p)
      | Mutated fp1 \<Rightarrow> laterSteps ms (lookupValue from (resolveName field fp1)))"
  by (simp add: runMutations_later resolveName_def lookupValue_def Let_def
      split: mutation_result.splits option.splits)

lemma decodeFields_reach:
  assumes "snd (decodeFields rt d from pre) = Next"
    and "decodeField rt d from field = (field', fl)"
  shows "fst (decodeFields rt d from (pre @ field # post)) ! length pre = field'"
    and "fl \<noteq> Next \<Longrightarrow> snd (decodeFields rt d from (pre @ field # post)) = fl"
proof -
  obtain pre' where pre: "decodeFields rt d from pre = (pre', Next)"
    using assms(1) by (cases "decodeFields rt d from pre") simp
  have len: "length pre' = length pre"
    using decodeFields_length [of rt d "from" pre] pre by simp
  obtain post' fl' where post: "decodeFields rt d from post = (post', fl')"
    by (cases "decodeFields rt d from post")
  have step: "decodeFields rt d from (field # post) =
              (if fl = Next then (field' # post', fl') else (field' # post, fl))"
    using assms(2) post by (cases fl) (simp_all add: decodeFields.simps)
  show "fst (decodeFields rt d from (pre @ field # post)) ! length pre = field'"
    using pre step len by (simp add: decodeFields_append nth_append)
  show "fl \<noteq> Next \<Longrightarrow> snd (decodeFields rt d from (pre @ field # post)) = fl"
    using pre step by (simp add: decodeFields_append)
qed

lemma Decode_reach:
  assumes "NewStruct to = Inr s"
    and "Fields s = pre @ field # post"
    and "snd (decodeFields rt d from pre) = Next"
    and "decodeField rt d from field = (field', fl)"
  shows "targetFields (fst (Decode rt d from to)) ! length pre = field'"
    and "fl \<noteq> Next \<Longrightarrow> snd (Decode rt d from to) = deferred fl"
proof -
  show "targetFields (fst (Decode rt d from to)) ! length pre = field'"
    using decodeFields_reach(1) [OF assms(3,4), of post] assms(1,2)
    by (simp add: targetFields_Decode)
  show "fl \<noteq> Next \<Longrightarrow> snd (Decode rt d from to) = deferred fl"
    using decodeFields_reach(2) [OF assms(3,4), of post] assms(1,2)
    by (simp add: Decode_unfold)
qed

lemma dispatch_no_mapping:
  "\<not> Skip fp \<Longrightarrow> isStructField field \<Longrightarrow> structFrom from field fp = None \<Longrightarrow>
   dispatch rt d from field fp =
     (withValue field (allocated (fValue field)), Return (ErrEmbedded (Name fp)))"
  by (simp add: dispatch_def)

lemma dispatch_nested:
  "\<not> Skip fp \<Longrightarrow> isStructField field \<Longrightarrow> structFrom from field fp = Some sub \<Longrightarrow>
   dispatch rt d from field fp =
     (withValue field (heldBy (fValue field) (fst (Decode rt d sub (handleOf (fValue field))))),
      case snd (Decode rt d sub (handleOf (fValue field))) of None \<Rightarrow> Next | Some err \<Rightarrow> Return err)"
  by (simp add: dispatch_def split: prod.splits option.splits)

lemma decodeField_passed:
  "runMutations (mutations d) 0 from field (newFieldPart field) = Inr fp \<Longrightarrow>
   decodeField rt d from field = dispatch rt d from field fp"
  by (simp add: decodeField_dispatch)

lemma Decode_New_shape: "\<exists>x. fst (Decode rt d from (New t)) = VPtr t (Some x)"
  by (cases "NewStruct (New t)")
     (auto simp: Decode.simps New_def split: prod.splits)

lemma isStructField_nil_pointer:
  "fValue field = VPtr t None \<Longrightarrow> Kind_of t = Struct \<Longrightarrow> isStructField field"
  by (simp add: isStructField_def fType_def)








lemma Decode_recovers:
  "NewStruct to = Inr s \<Longrightarrow> snd (decodeFields rt d from (Fields s)) = Panic p \<Longrightarrow>
   snd (Decode rt d from to) = Some (ErrRecovered p)"
  by (simp add: Decode_unfold)



lemma empty_pipeline_any_mapping:
  "mutations d = [] \<longrightarrow> (\<forall>from2. Decode rt d from to = Decode rt d from2 to)"
  "mutations d = [] \<longrightarrow> (\<forall>from2. decodeFields rt d from fs = decodeFields rt d from2 fs)"
  "mutations d = [] \<longrightarrow> (\<forall>from2. decodeField rt d from field = decodeField rt d from2 field)"
proof (induction rt d "from" to and rt d "from" fs and rt d "from" field
       rule: Decode_decodeFields_decodeField.induct)
  case (1 rt decoder "from" to)
  show ?case
  proof (intro allI impI)
    fix from2 assume e: "mutations decoder = []"
    show "Decode rt decoder from to = Decode rt decoder from2 to"
    proof (cases "NewStruct to")
      case (Inl err)
      then show ?thesis by (simp add: Decode.simps)
    next
      case (Inr s)
      with 1 e have "decodeFields rt decoder from (Fields s) = decodeFields rt decoder from2 (Fields s)"
        by blast
      with Inr show ?thesis by (simp add: Decode.simps)
    qed
  qed
next
  case (2 rt decoder "from")
  show ?case by (simp add: decodeFields.simps)
next
  case (3 rt decoder "from" field fs)
  show ?case
  proof (intro allI impI)
    fix from2 assume e: "mutations decoder = []"
    from 3(1) e have f: "decodeField rt decoder from field = decodeField rt decoder from2 field"
      by blast
    obtain field' fl where r: "decodeField rt decoder from field = (field', fl)"
      by (cases "decodeField rt decoder from field")
    show "decodeFields rt decoder from (field # fs) = decodeFields rt decoder from2 (field # fs)"
    proof (cases fl)
      case Next
      with 3(2) [OF r [symmetric]] r e
      have "decodeFields rt decoder from fs = decodeFields rt decoder from2 fs"
        by blast
      with r f Next show ?thesis by (simp add: decodeFields.simps)
    qed (use r f in \<open>simp_all add: decodeFields.simps\<close>)
  qed
next
  case (4 rt decoder "from" field)
  show ?case
  proof (intro allI impI)
    fix from2 assume e: "mutations decoder = []"
    have rm: "runMutations (mutations decoder) 0 from field (newFieldPart field)
              = Inr (newFieldPart field)"
      using e by simp
    have rm2: "runMutations (mutations decoder) 0 from2 field (newFieldPart field)
              = Inr (newFieldPart field)"
      using e by simp
    have "dispatch rt decoder from field (newFieldPart field) =
          dispatch rt decoder from2 field (newFieldPart field)"
    proof (cases "isStructField field \<and> IsEmbedded field")
      case True
      then have "structFrom from field (newFieldPart field) = Some from"
        by (simp add: structFrom_def)
      with 4 [OF rm] True e
      have "Decode rt decoder from (handleOf (fValue field)) =
            Decode rt decoder from2 (handleOf (fValue field))"
        by (simp add: newFieldPart_def)
      with True show ?thesis
        by (simp add: dispatch_def structFrom_def)
    next
      case False
      then show ?thesis
        by (auto simp: dispatch_def structFrom_def newFieldPart_def)
    qed
    with rm rm2 show "decodeField rt decoder from field = decodeField rt decoder from2 field"
      by (simp add: decodeField_dispatch)
  qed
qed

lemma empty_pipeline_scalar:
  "mutations d = [] \<Longrightarrow> \<not> isStructField field \<Longrightarrow> decodeField rt d from field = (field, Next)"
  by (simp add: decodeField_dispatch dispatch_def assignValue_def resolved_def newFieldPart_def)

lemma empty_pipeline_struct:
  "mutations d = [] \<Longrightarrow> isStructField field \<Longrightarrow> \<not> IsEmbedded field \<Longrightarrow>
   snd (decodeField rt d from field) = Return (ErrEmbedded [])"
  by (simp add: decodeField_dispatch dispatch_def structFrom_def newFieldPart_def)

lemma empty_pipeline_stops:
  "mutations d = [] \<Longrightarrow> field \<in> set fs \<Longrightarrow> isStructField field \<Longrightarrow> \<not> IsEmbedded field \<Longrightarrow>
   snd (decodeFields rt d from fs) \<noteq> Next"
proof (induction fs)
  case Nil
  then show ?case by simp
next
  case (Cons a fs)
  obtain a' fl where a: "decodeField rt d from a = (a', fl)"
    by (cases "decodeField rt d from a")
  obtain fs' fl' where fs: "decodeFields rt d from fs = (fs', fl')"
    by (cases "decodeFields rt d from fs")
  show ?case
  proof (cases fl)
    case Next
    with a Cons.prems empty_pipeline_struct [of d a rt "from"] have "field \<noteq> a"
      by auto
    with Cons have "fl' \<noteq> Next" using fs by simp
    with a fs Next show ?thesis by (simp add: decodeFields.simps)
  qed (use a in \<open>simp_all add: decodeFields.simps\<close>)
qed

lemma deferred_None: "deferred fl = None \<longleftrightarrow> fl = Next"
  by (cases fl) simp_all

section \<open>The claims\<close>

text \<open>
  C2. A field that is neither a struct nor a pointer to a struct, whose descriptor
  leaves the pipeline with no value (no key in the mapping and no value supplied by a
  step, a nil value) or with a nil pointer, is left exactly as it was: its pass of the
  loop ends normally without touching it, no pointer layer is allocated, and after
  \<open>Decode\<close> the target holds the same field, whatever else the call did.
\<close>

theorem absent_value_leaves_field:
  assumes "NewStruct to = Inr s"
    and "i < length (Fields s)"
    and "\<not> isStructField (Fields s ! i)"
    and "runMutations (mutations d) 0 from (Fields s ! i) (newFieldPart (Fields s ! i)) = Inr fp"
    and "Value fp = None \<or> (\<exists>t. Value fp = Some (VPtr t None))"
  shows "decodeField rt d from (Fields s ! i) = (Fields s ! i, Next) \<and>
         targetFields (fst (Decode rt d from to)) ! i = Fields s ! i"
proof -
  from assms(5) have "resolved fp = None"
    by (simp add: resolved_None)
  then have "assignValue rt (Fields s ! i) fp = (Fields s ! i, Next)"
    by (simp add: assignValue_def)
  with assms(3,4) have one: "decodeField rt d from (Fields s ! i) = (Fields s ! i, Next)"
    by (simp add: decodeField_scalar)
  with decodeFields_nth [OF assms(2), of rt d "from"]
  have "fst (decodeFields rt d from (Fields s)) ! i = Fields s ! i"
    by auto
  with one assms(1) show ?thesis
    by (simp add: targetFields_Decode)
qed

theorem absent_value_leaves_field_witness:
  "NewStruct presetTarget = Inr [presetField] \<and>
   \<not> isStructField presetField \<and>
   Value (newFieldPart presetField\<lparr>Name := ''Name''\<rparr>) = None \<and>
   decodeField assignable_conversions noopDecoder [] presetField = (presetField, Next) \<and>
   targetFields (fst (Decode assignable_conversions noopDecoder [] presetTarget)) ! 0 = presetField"
proof -
  have ns: "NewStruct presetTarget = Inr [presetField]"
    by (simp add: NewStruct_def presetTarget_def Addr_def)
  have fs: "Fields [presetField] = [presetField]"
    by (simp add: Fields_def presetField_def)
  have sc: "\<not> isStructField presetField"
    by (simp add: isStructField_def fType_def presetField_def)
  have rm: "runMutations (mutations noopDecoder) 0 [] presetField (newFieldPart presetField)
            = Inr (newFieldPart presetField\<lparr>Name := ''Name''\<rparr>)"
    by (simp add: noopDecoder_def AddMutation_def NewDecoder_def Noop_def presetField_def newFieldPart_def)
  have va: "Value (newFieldPart presetField\<lparr>Name := ''Name''\<rparr>) = None"
    by (simp add: newFieldPart_def)
  have h2: "0 < length (Fields [presetField])"
    by (simp add: fs)
  have h3: "\<not> isStructField (Fields [presetField] ! 0)"
    by (simp add: fs sc)
  have h4: "runMutations (mutations noopDecoder) 0 [] (Fields [presetField] ! 0)
              (newFieldPart (Fields [presetField] ! 0))
            = Inr (newFieldPart presetField\<lparr>Name := ''Name''\<rparr>)"
    by (simp add: fs rm)
  have h5: "Value (newFieldPart presetField\<lparr>Name := ''Name''\<rparr>) = None \<or>
            (\<exists>t. Value (newFieldPart presetField\<lparr>Name := ''Name''\<rparr>) = Some (VPtr t None))"
    by (simp add: va)
  from absent_value_leaves_field [OF ns h2 h3 h4 h5, of assignable_conversions] ns sc va
  show ?thesis by (simp add: fs)
qed

text \<open>
  C4. For every field of every call, the loop body \<open>decodeField\<close> is this: the
  descriptor handed to the first step has an empty \<open>Name\<close> and no \<open>Value\<close>; with no
  step at all nothing is looked up and the fresh descriptor goes to the dispatch of
  lines 76 to 138; otherwise, after the first step and only then, an empty \<open>Name\<close>
  becomes the declared identifier and the \<open>Value\<close> is looked up under the resolved
  name, once, and the later steps run without the mapping.
\<close>

theorem name_then_one_lookup:
  "Name (newFieldPart field) = [] \<and> Value (newFieldPart field) = None \<and>
   decodeField rt d from field =
     (case mutations d of
        [] \<Rightarrow> dispatch rt d from field (newFieldPart field)
      | m # ms \<Rightarrow>
          (case m (newFieldPart field) of
             Failed err \<Rightarrow> (field, Return err)
           | Panicked p \<Rightarrow> (field, Panic p)
           | Mutated fp1 \<Rightarrow>
               (case laterSteps ms (lookupValue from (resolveName field fp1)) of
                  Inl fl \<Rightarrow> (field, fl)
                | Inr fp \<Rightarrow> dispatch rt d from field fp)))"
proof -
  have eq: "decodeField rt d from field =
     (case mutations d of
        [] \<Rightarrow> dispatch rt d from field (newFieldPart field)
      | m # ms \<Rightarrow>
          (case m (newFieldPart field) of
             Failed err \<Rightarrow> (field, Return err)
           | Panicked p \<Rightarrow> (field, Panic p)
           | Mutated fp1 \<Rightarrow>
               (case laterSteps ms (lookupValue from (resolveName field fp1)) of
                  Inl fl \<Rightarrow> (field, fl)
                | Inr fp \<Rightarrow> dispatch rt d from field fp)))"
  proof (cases "mutations d")
    case Nil
    then show ?thesis
      by (simp add: decodeField_dispatch)
  next
    case (Cons m ms)
    then show ?thesis
      by (simp add: decodeField_dispatch runMutations_first del: runMutations.simps
          split: mutation_result.splits)
  qed
  then show ?thesis
    by (simp add: newFieldPart_def)
qed

text \<open>
  C1. The claim fails on \<open>Decode\<close>: lines 117 to 123 go through one pointer layer only.
  For a field of type \<^verbatim>\<open>***string\<close> and the value \<^verbatim>\<open>"A"\<close> the first layer is allocated,
  the string is compared with \<^verbatim>\<open>**string\<close>, and \<open>Decode\<close> returns the type mismatch. The
  helper \<open>SetValue\<close> does reach any depth (\<open>SetValue_depth\<close>), but \<open>Decode\<close> does not call it.
\<close>

theorem triple_pointer_decode_fails:
  "Decode assignable_conversions noopDecoder [(''A'', Some (VString ''A''))] tripleTarget =
     (Addr (VStruct ''Target''
        [Field ''A'' [] False True (VPtr (TPtr (TPtr TString)) (Some (VPtr (TPtr TString) None)))]),
      Some (ErrNotAssignable ''A'' TString (TPtr (TPtr TString))))"
  by code_simp

text \<open>
  C5. The claim holds but for the name. When the loop reaches a field that is a
  struct or a pointer to a struct, is not embedded and not skipped, and whose
  descriptor value is not a \<^verbatim>\<open>map[string]interface{}\<close>, the pass returns the error of
  line 95 and \<open>Decode\<close> returns it: a hard error, never a skip. The name in the error is
  the descriptor's \<open>Name\<close>, not the declared identifier: with an empty pipeline it is
  empty (the counterexample), with a naming step that leaves \<open>Name\<close> empty it is the
  declared identifier (the witness).
\<close>

theorem not_a_mapping_is_an_error:
  assumes "NewStruct to = Inr s"
    and "Fields s = pre @ field # post"
    and "snd (decodeFields rt d from pre) = Next"
    and "isStructField field"
    and "\<not> IsEmbedded field"
    and "runMutations (mutations d) 0 from field (newFieldPart field) = Inr fp"
    and "\<not> Skip fp"
    and "asMapping (Value fp) = None"
  shows "snd (decodeField rt d from field) = Return (ErrEmbedded (Name fp)) \<and>
         snd (Decode rt d from to) = Some (ErrEmbedded (Name fp))"
proof -
  have "structFrom from field fp = None"
    using assms(5,8) by (simp add: structFrom_def)
  then have one: "decodeField rt d from field =
      (withValue field (allocated (fValue field)), Return (ErrEmbedded (Name fp)))"
    using assms(4,6,7) by (simp add: decodeField_passed dispatch_no_mapping)
  from Decode_reach(2) [OF assms(1,2,3) one] one show ?thesis
    by simp
qed


theorem not_a_mapping_is_an_error_witness:
  "isStructField myAddressField \<and> \<not> IsEmbedded myAddressField \<and>
   snd (decodeField assignable_conversions noopDecoder notAMap myAddressField)
     = Return (ErrEmbedded ''MyAddress'') \<and>
   snd (Decode assignable_conversions noopDecoder notAMap myAddressTarget)
     = Some (ErrEmbedded ''MyAddress'')"
proof -
  have h1: "NewStruct myAddressTarget = Inr [myAddressField]"
    by code_simp
  have h2: "Fields [myAddressField] = [] @ myAddressField # []"
    by code_simp
  have h3: "snd (decodeFields assignable_conversions noopDecoder notAMap []) = Next"
    by (simp add: decodeFields.simps)
  have h4: "isStructField myAddressField"
    by code_simp
  have h5: "\<not> IsEmbedded myAddressField"
    by code_simp
  have h6: "runMutations (mutations noopDecoder) 0 notAMap myAddressField
              (newFieldPart myAddressField)
            = Inr ((newFieldPart myAddressField)
                     \<lparr>Name := ''MyAddress'', Value := Some (VString ''not-a-map'')\<rparr>)"
    by code_simp
  have h7: "\<not> Skip ((newFieldPart myAddressField)
                     \<lparr>Name := ''MyAddress'', Value := Some (VString ''not-a-map'')\<rparr>)"
    by code_simp
  have h8: "asMapping (Value ((newFieldPart myAddressField)
                     \<lparr>Name := ''MyAddress'', Value := Some (VString ''not-a-map'')\<rparr>)) = None"
    by code_simp
  from not_a_mapping_is_an_error [OF h1 h2 h3 h4 h5 h6 h7 h8] h4 h5
  show ?thesis by simp
qed

theorem empty_pipeline_error_names_nothing:
  "snd (Decode assignable_conversions NewDecoder notAMap myAddressTarget) = Some (ErrEmbedded []) \<and>
   snd (Decode assignable_conversions NewDecoder notAMap myAddressTarget)
     \<noteq> Some (ErrEmbedded ''MyAddress'')"
  by code_simp

text \<open>
  C7. When the loop reaches an embedded field that is a struct or a pointer to a
  struct and is not skipped, the pass is the nested call of \<open>Decode\<close> with the very
  mapping of the calling \<open>Decode\<close>, on the handle of the field, and the target then
  holds what that call left: no prefix, no sub-mapping, and the descriptor's value
  plays no part. In the witness the key \<^verbatim>\<open>Address\<close> of the parent's mapping fills the
  field \<^verbatim>\<open>Address\<close> of the embedded record.
\<close>

theorem embedded_shares_mapping:
  assumes "NewStruct to = Inr s"
    and "Fields s = pre @ field # post"
    and "snd (decodeFields rt d from pre) = Next"
    and "isStructField field"
    and "IsEmbedded field"
    and "runMutations (mutations d) 0 from field (newFieldPart field) = Inr fp"
    and "\<not> Skip fp"
  shows "decodeField rt d from field =
           (withValue field (heldBy (fValue field) (fst (Decode rt d from (handleOf (fValue field))))),
            case snd (Decode rt d from (handleOf (fValue field))) of
              None \<Rightarrow> Next
            | Some err \<Rightarrow> Return err) \<and>
         targetFields (fst (Decode rt d from to)) ! length pre =
           withValue field (heldBy (fValue field) (fst (Decode rt d from (handleOf (fValue field)))))"
proof -
  have "structFrom from field fp = Some from"
    using assms(5) by (simp add: structFrom_def)
  then have one: "decodeField rt d from field =
           (withValue field (heldBy (fValue field) (fst (Decode rt d from (handleOf (fValue field))))),
            case snd (Decode rt d from (handleOf (fValue field))) of
              None \<Rightarrow> Next
            | Some err \<Rightarrow> Return err)"
    using assms(4,6,7) by (simp add: decodeField_passed dispatch_nested)
  from Decode_reach(1) [OF assms(1,2,3) one] one show ?thesis
    by simp
qed

theorem embedded_shares_mapping_witness:
  "isStructField embeddedField \<and> IsEmbedded embeddedField \<and>
   targetFields (fst (Decode assignable_conversions noopDecoder streetA embeddedTarget)) ! 0 =
     withValue embeddedField
       (VStruct ''SubRecord'' [Field ''Address'' [] False True (VString ''Street A'')])"
proof -
  have h1: "NewStruct embeddedTarget = Inr [embeddedField]"
    by code_simp
  have h2: "Fields [embeddedField] = [] @ embeddedField # []"
    by code_simp
  have h3: "snd (decodeFields assignable_conversions noopDecoder streetA []) = Next"
    by (simp add: decodeFields.simps)
  have h4: "isStructField embeddedField"
    by code_simp
  have h5: "IsEmbedded embeddedField"
    by code_simp
  have h6: "runMutations (mutations noopDecoder) 0 streetA embeddedField
              (newFieldPart embeddedField)
            = Inr ((newFieldPart embeddedField)\<lparr>Name := ''SubRecord''\<rparr>)"
    by code_simp
  have h7: "\<not> Skip ((newFieldPart embeddedField)\<lparr>Name := ''SubRecord''\<rparr>)"
    by code_simp
  have nested: "heldBy (fValue embeddedField)
                  (fst (Decode assignable_conversions noopDecoder streetA
                         (handleOf (fValue embeddedField))))
                = VStruct ''SubRecord'' [Field ''Address'' [] False True (VString ''Street A'')]"
    by code_simp
  from embedded_shares_mapping [OF h1 h2 h3 h4 h5 h6 h7] h4 h5 nested
  show ?thesis by simp
qed

text \<open>
  C10. When the loop reaches a nil pointer to a struct, not skipped, and the pass ends
  with an error, \<open>Decode\<close> returns that error and the target's field is no longer nil:
  it is the newly allocated zero struct if the error is that the value is no mapping
  (line 95), and what the failing nested call left of that newly allocated zero struct
  otherwise. The failing field is not left as it was.
\<close>

theorem error_leaves_new_struct_behind:
  assumes "NewStruct to = Inr s"
    and "Fields s = pre @ field # post"
    and "snd (decodeFields rt d from pre) = Next"
    and "fValue field = VPtr t None"
    and "Kind_of t = Struct"
    and "runMutations (mutations d) 0 from field (newFieldPart field) = Inr fp"
    and "\<not> Skip fp"
    and "decodeField rt d from field = (field', Return err)"
  shows "snd (Decode rt d from to) = Some err \<and>
         targetFields (fst (Decode rt d from to)) ! length pre = field' \<and>
         fValue field' =
           (case structFrom from field fp of
              None \<Rightarrow> New t
            | Some sub \<Rightarrow> fst (Decode rt d sub (New t))) \<and>
         (\<exists>s'. fValue field' = VPtr t (Some s')) \<and>
         field' \<noteq> field"
proof -
  have st: "isStructField field"
    using assms(4,5) by (rule isStructField_nil_pointer)
  have res: "snd (Decode rt d from to) = Some err"
    using Decode_reach(2) [OF assms(1,2,3,8)] by simp
  have at: "targetFields (fst (Decode rt d from to)) ! length pre = field'"
    using Decode_reach(1) [OF assms(1,2,3,8)] .
  have val: "fValue field' =
           (case structFrom from field fp of
              None \<Rightarrow> New t
            | Some sub \<Rightarrow> fst (Decode rt d sub (New t)))"
  proof (cases "structFrom from field fp")
    case None
    with assms(4,6,7,8) st show ?thesis
      by (auto simp: decodeField_passed dispatch_no_mapping)
  next
    case (Some sub)
    with assms(4,6,7,8) st show ?thesis
      by (auto simp: decodeField_passed dispatch_nested)
  qed
  have shape: "\<exists>s'. fValue field' = VPtr t (Some s')"
  proof (cases "structFrom from field fp")
    case None
    with val show ?thesis by (simp add: New_def)
  next
    case (Some sub)
    with val Decode_New_shape [of rt d sub t] show ?thesis by simp
  qed
  from shape assms(4) have "field' \<noteq> field" by auto
  with res at val shape show ?thesis by simp
qed

theorem error_leaves_new_struct_behind_witness:
  "fValue myAddressPtrField = VPtr SubRecord None \<and>
   snd (Decode assignable_conversions noopDecoder notAMap myAddressPtrTarget)
     = Some (ErrEmbedded ''MyAddress'') \<and>
   targetFields (fst (Decode assignable_conversions noopDecoder notAMap myAddressPtrTarget)) ! 0
     = withValue myAddressPtrField (New SubRecord)"
proof -
  have h1: "NewStruct myAddressPtrTarget = Inr [myAddressPtrField]"
    by code_simp
  have h2: "Fields [myAddressPtrField] = [] @ myAddressPtrField # []"
    by code_simp
  have h3: "snd (decodeFields assignable_conversions noopDecoder notAMap []) = Next"
    by (simp add: decodeFields.simps)
  have h4: "fValue myAddressPtrField = VPtr SubRecord None"
    by (simp add: myAddressPtrField_def)
  have h5: "Kind_of SubRecord = Struct"
    by (simp add: SubRecord_def)
  have h6: "runMutations (mutations noopDecoder) 0 notAMap myAddressPtrField
              (newFieldPart myAddressPtrField)
            = Inr ((newFieldPart myAddressPtrField)
                     \<lparr>Name := ''MyAddress'', Value := Some (VString ''not-a-map'')\<rparr>)"
    by code_simp
  have h7: "\<not> Skip ((newFieldPart myAddressPtrField)
                     \<lparr>Name := ''MyAddress'', Value := Some (VString ''not-a-map'')\<rparr>)"
    by code_simp
  have h8: "decodeField assignable_conversions noopDecoder notAMap myAddressPtrField
            = (withValue myAddressPtrField (New SubRecord), Return (ErrEmbedded ''MyAddress''))"
    by code_simp
  from error_leaves_new_struct_behind [OF h1 h2 h3 h4 h5 h6 h7 h8] h4
  show ?thesis by simp
qed





text \<open>
  C3. The claim fails where it says that nested calls do not catch: the deferred
  function of lines 39 to 45 belongs to \<open>Decode\<close> itself, and line 99 calls \<open>Decode\<close>. As
  amended: a fault in the body of a nested call is recovered by that nested call,
  which returns it as an ordinary error; the body of the calling \<open>Decode\<close> then ends
  with the plain \<^verbatim>\<open>return err\<close> of line 100, not with a panic, and the calling \<open>Decode\<close>
  returns the same error unchanged. In the counterexample the nested body panics in
  \<^verbatim>\<open>reflect.Set\<close>, the nested call returns the recovered error, and the outer loop does
  not end with a panic.
\<close>

theorem every_call_recovers:
  assumes "NewStruct to = Inr s"
    and "Fields s = pre @ field # post"
    and "snd (decodeFields rt d from pre) = Next"
    and "isStructField field"
    and "runMutations (mutations d) 0 from field (newFieldPart field) = Inr fp"
    and "\<not> Skip fp"
    and "structFrom from field fp = Some sub"
    and "NewStruct (handleOf (fValue field)) = Inr s'"
    and "snd (decodeFields rt d sub (Fields s')) = Panic p"
  shows "snd (Decode rt d sub (handleOf (fValue field))) = Some (ErrRecovered p) \<and>
         snd (decodeField rt d from field) = Return (ErrRecovered p) \<and>
         snd (decodeFields rt d from (Fields s)) = Return (ErrRecovered p) \<and>
         snd (Decode rt d from to) = Some (ErrRecovered p)"
proof -
  have nested: "snd (Decode rt d sub (handleOf (fValue field))) = Some (ErrRecovered p)"
    using assms(8,9) by (rule Decode_recovers)
  obtain field' where one: "decodeField rt d from field = (field', Return (ErrRecovered p))"
    using assms(4,5,6,7) nested by (simp add: decodeField_passed dispatch_nested)
  have body: "snd (decodeFields rt d from (Fields s)) = Return (ErrRecovered p)"
    using decodeFields_reach(2) [OF assms(3) one, of post] assms(2) by simp
  have outer: "snd (Decode rt d from to) = Some (ErrRecovered p)"
    using Decode_reach(2) [OF assms(1,2,3) one] by simp
  from nested one body outer show ?thesis by simp
qed

theorem every_call_recovers_witness:
  "snd (decodeFields assignable_conversions noopDecoder namesInts
          (targetFields (handleOf (fValue innerField))))
     = Panic (PanicSet (TSlice TInt) (TSlice TString)) \<and>
   snd (Decode assignable_conversions noopDecoder namesInts (handleOf (fValue innerField)))
     = Some (ErrRecovered (PanicSet (TSlice TInt) (TSlice TString))) \<and>
   snd (decodeFields assignable_conversions noopDecoder innerInts (targetFields innerTarget))
     = Return (ErrRecovered (PanicSet (TSlice TInt) (TSlice TString))) \<and>
   snd (Decode assignable_conversions noopDecoder innerInts innerTarget)
     = Some (ErrRecovered (PanicSet (TSlice TInt) (TSlice TString)))"
proof -
  have h1: "NewStruct innerTarget = Inr [innerField]"
    by code_simp
  have h2: "Fields [innerField] = [] @ innerField # []"
    by code_simp
  have h3: "snd (decodeFields assignable_conversions noopDecoder innerInts []) = Next"
    by (simp add: decodeFields.simps)
  have h4: "isStructField innerField"
    by code_simp
  have h5: "runMutations (mutations noopDecoder) 0 innerInts innerField (newFieldPart innerField)
            = Inr ((newFieldPart innerField)\<lparr>Name := ''Inner'', Value := Some (VMap namesInts)\<rparr>)"
    by code_simp
  have h6: "\<not> Skip ((newFieldPart innerField)\<lparr>Name := ''Inner'', Value := Some (VMap namesInts)\<rparr>)"
    by code_simp
  have h7: "structFrom innerInts innerField
              ((newFieldPart innerField)\<lparr>Name := ''Inner'', Value := Some (VMap namesInts)\<rparr>)
            = Some namesInts"
    by code_simp
  have h8: "NewStruct (handleOf (fValue innerField))
            = Inr [Field ''Names'' [] False True (VSlice TString [])]"
    by code_simp
  have h9: "snd (decodeFields assignable_conversions noopDecoder namesInts
                   (Fields [Field ''Names'' [] False True (VSlice TString [])]))
            = Panic (PanicSet (TSlice TInt) (TSlice TString))"
    by code_simp
  have t1: "targetFields (handleOf (fValue innerField))
            = Fields [Field ''Names'' [] False True (VSlice TString [])]"
    by code_simp
  have t2: "targetFields innerTarget = Fields [innerField]"
    by code_simp
  from every_call_recovers [OF h1 h2 h3 h4 h5 h6 h7 h8 h9] h9 t1 t2
  show ?thesis by simp
qed

theorem nested_call_recovers_itself:
  "snd (decodeFields assignable_conversions noopDecoder namesInts
          (targetFields (handleOf (fValue innerField))))
     = Panic (PanicSet (TSlice TInt) (TSlice TString)) \<and>
   snd (Decode assignable_conversions noopDecoder namesInts (handleOf (fValue innerField)))
     = Some (ErrRecovered (PanicSet (TSlice TInt) (TSlice TString))) \<and>
   snd (decodeField assignable_conversions noopDecoder innerInts innerField)
     = Return (ErrRecovered (PanicSet (TSlice TInt) (TSlice TString))) \<and>
   snd (decodeFields assignable_conversions noopDecoder innerInts (targetFields innerTarget))
     \<noteq> Panic (PanicSet (TSlice TInt) (TSlice TString))"
  by code_simp




text \<open>
  C9. With no mutation registered \<open>Decode\<close> never reads the mapping: its outcome is the
  same for every mapping, the empty one included. Every field of the target that is
  neither a struct nor a pointer to a struct is left as it was, and if the target has
  a field that is a struct or a pointer to a struct and is not embedded, \<open>Decode\<close>
  returns an error.
\<close>

theorem empty_pipeline_reads_nothing:
  assumes "mutations d = []"
    and "NewStruct to = Inr s"
  shows "Decode rt d from to = Decode rt d [] to \<and>
         (\<forall>i < length (Fields s). \<not> isStructField (Fields s ! i) \<longrightarrow>
            targetFields (fst (Decode rt d from to)) ! i = Fields s ! i) \<and>
         ((\<exists>field \<in> set (Fields s). isStructField field \<and> \<not> IsEmbedded field) \<longrightarrow>
            snd (Decode rt d from to) \<noteq> None)"
proof -
  have a: "Decode rt d from to = Decode rt d [] to"
    using empty_pipeline_any_mapping(1) [of d rt "from" to] assms(1) by blast
  have b: "targetFields (fst (Decode rt d from to)) ! i = Fields s ! i"
    if "i < length (Fields s)" "\<not> isStructField (Fields s ! i)" for i
    using decodeFields_nth [OF that(1), of rt d "from"]
      empty_pipeline_scalar [OF assms(1) that(2), of rt "from"] assms(2)
    by (auto simp: targetFields_Decode)
  have c: "snd (Decode rt d from to) \<noteq> None"
    if "field \<in> set (Fields s)" "isStructField field" "\<not> IsEmbedded field" for field
    using empty_pipeline_stops [OF assms(1) that, of rt "from"] assms(2)
    by (simp add: Decode_unfold deferred_None)
  from a b c show ?thesis by blast
qed

theorem empty_pipeline_reads_nothing_witness:
  "mutations NewDecoder = [] \<and>
   Decode assignable_conversions NewDecoder bothKeys twoFieldTarget =
   Decode assignable_conversions NewDecoder [] twoFieldTarget \<and>
   targetFields (fst (Decode assignable_conversions NewDecoder bothKeys twoFieldTarget)) ! 0
     = presetField \<and>
   snd (Decode assignable_conversions NewDecoder bothKeys twoFieldTarget) \<noteq> None"
proof -
  have h1: "mutations NewDecoder = []"
    by (simp add: NewDecoder_def)
  have h2: "NewStruct twoFieldTarget = Inr [presetField, myAddressField]"
    by code_simp
  have fs: "Fields [presetField, myAddressField] = [presetField, myAddressField]"
    by code_simp
  have sc: "\<not> isStructField presetField"
    by code_simp
  have st: "isStructField myAddressField \<and> \<not> IsEmbedded myAddressField"
    by code_simp
  from empty_pipeline_reads_nothing [OF h1 h2, of assignable_conversions bothKeys] h1 fs sc st
  show ?thesis by auto
qed

end
